theory Spec2Isabelle
  imports Main
begin

section \<open>The market maker's process lifecycle hooks\<close>

text \<open>
  The repository's only translation unit is \<^verbatim>\<open>source/market_maker/market_maker.cpp\<close>:
  \<^verbatim>\<open>
  namespace market_maker {
      void MarketMaker::start() {
          std::cout << "Market maker starting..." << std::endl;
      }

      void MarketMaker::stop() {
          std::cout << "Market maker stopping..." << std::endl;
      }
  }
  \<close>
  Both member functions have an empty parameter list and return \<^verbatim>\<open>void\<close>; their
  bodies are one statement each, an insertion of a string literal into
  \<^verbatim>\<open>std::cout\<close> followed by the manipulator \<^verbatim>\<open>std::endl\<close>. What the statement
  does is decided by the stream it is applied to, so the stream is modelled with the
  state the C++ standard gives it: error bits, exception mask, field width, fill
  character and adjustment, the \<^verbatim>\<open>unitbuf\<close> flag, the tied stream, the locale's
  \<^verbatim>\<open>widen\<close>, and the stream buffer in front of the device.
\<close>

subsection \<open>Stream buffers\<close>

text \<open>
  Streams and stream buffers live in a store and are referred to by address, because
  \<^verbatim>\<open>tie()\<close> and \<^verbatim>\<open>rdbuf()\<close> are pointers: two streams may share a buffer, and a
  stream may be tied to any stream, itself included.
\<close>

type_synonym addr = nat

text \<open>
  A call either returns or leaves by the exception \<^verbatim>\<open>std::ios_base::failure\<close>; in
  both cases the state it has reached stays.
\<close>

datatype outcome = Returned | Threw

text \<open>
  A stream buffer: the characters the device behind it has accepted, the characters
  in its put area, the size of the put area, and whether the device accepts
  characters at all (it does not when the descriptor is closed or the disk is full).
\<close>

record streambuf =
  device :: string
  buffer :: string
  capacity :: nat
  writable :: bool

text \<open>
  \<^verbatim>\<open>sb.pubsync()\<close>: the put area is handed to the device. The first component says
  whether the call succeeded (\<open>False\<close> is the return value \<open>-1\<close>); it fails when there
  are characters to hand over and the device refuses them.
\<close>

definition sync :: "streambuf \<Rightarrow> bool \<times> streambuf" where
  "sync sb =
     (if buffer sb = [] then (True, sb)
      else if writable sb then (True, sb\<lparr>device := device sb @ buffer sb, buffer := []\<rparr>)
      else (False, sb))"

text \<open>
  \<^verbatim>\<open>sb.sputc(c)\<close>: the character goes into the put area while there is room; when
  the put area is full, \<^verbatim>\<open>overflow\<close> hands it and the character to the device, and
  fails (\<open>False\<close> is \<^verbatim>\<open>eof\<close>) when the device refuses.
\<close>

definition sputc :: "char \<Rightarrow> streambuf \<Rightarrow> bool \<times> streambuf" where
  "sputc c sb =
     (if length (buffer sb) < capacity sb then (True, sb\<lparr>buffer := buffer sb @ [c]\<rparr>)
      else if writable sb then (True, sb\<lparr>device := device sb @ buffer sb @ [c], buffer := []\<rparr>)
      else (False, sb))"

text \<open>
  \<^verbatim>\<open>sb.sputn(s, n)\<close>: as if by repeated \<^verbatim>\<open>sputc\<close>, stopping at the first character
  that is refused; the first component is the number of characters stored.
\<close>

fun sputn :: "string \<Rightarrow> streambuf \<Rightarrow> nat \<times> streambuf" where
  "sputn [] sb = (0, sb)"
| "sputn (c # cs) sb =
     (case sputc c sb of
        (False, sb') \<Rightarrow> (0, sb')
      | (True, sb') \<Rightarrow> (case sputn cs sb' of (k, sb'') \<Rightarrow> (Suc k, sb'')))"

subsection \<open>Output streams\<close>

text \<open>
  The state of a \<^verbatim>\<open>std::ostream\<close>: \<^verbatim>\<open>rdbuf()\<close> (\<open>None\<close> is the null pointer), the
  bits of \<^verbatim>\<open>rdstate()\<close>, the bits of \<^verbatim>\<open>exceptions()\<close>, \<^verbatim>\<open>width()\<close>,
  \<^verbatim>\<open>fill()\<close>, whether \<^verbatim>\<open>flags() & adjustfield\<close> is \<^verbatim>\<open>left\<close>, whether
  \<^verbatim>\<open>flags() & unitbuf\<close> is set, \<^verbatim>\<open>tie()\<close>, and \<^verbatim>\<open>widen\<close> of the imbued locale.
\<close>

record ostream =
  rdbuf :: "addr option"
  badbit :: bool
  failbit :: bool
  eofbit :: bool
  exc_badbit :: bool
  exc_failbit :: bool
  exc_eofbit :: bool
  width :: int
  fill :: char
  adjust_left :: bool
  unitbuf :: bool
  tie :: "addr option"
  widen :: "char \<Rightarrow> char"

text \<open>
  The standard leaves one step of the statement to the library: while it prepares,
  the constructor of \<^verbatim>\<open>ostream::sentry\<close> may call \<^verbatim>\<open>setstate(failbit)\<close>. The
  library is a parameter of the model; \<open>sentry_setstate\<close> says for which streams that
  are not good it makes the call.
\<close>

record library =
  sentry_setstate :: "ostream \<Rightarrow> bool"

text \<open>
  The state a call runs in: the streams and the stream buffers of the program, and
  whatever else it holds. The rest is the extension part of the record, so it ranges
  over every type: the fields of the \<^verbatim>\<open>MarketMaker\<close> object (its class is declared in
  \<^verbatim>\<open>market_maker/market_maker.hpp\<close>) and all other objects.
\<close>

record process =
  streams :: "addr \<Rightarrow> ostream"
  bufs :: "addr \<Rightarrow> streambuf"

definition set_stream :: "addr \<Rightarrow> ostream \<Rightarrow> 'a process_scheme \<Rightarrow> 'a process_scheme" where
  "set_stream a os p = p\<lparr>streams := (streams p)(a := os)\<rparr>"

definition set_buf :: "addr \<Rightarrow> streambuf \<Rightarrow> 'a process_scheme \<Rightarrow> 'a process_scheme" where
  "set_buf b sb p = p\<lparr>bufs := (bufs p)(b := sb)\<rparr>"

text \<open>
  \<^verbatim>\<open>os.bad()\<close> and \<^verbatim>\<open>os.good()\<close>. \<^verbatim>\<open>basic_ios::clear\<close> keeps \<^verbatim>\<open>badbit\<close> set
  for as long as \<^verbatim>\<open>rdbuf()\<close> is null, so the bit is read together with the pointer.
\<close>

definition bad :: "ostream \<Rightarrow> bool" where
  "bad os = (badbit os \<or> rdbuf os = None)"

definition good :: "ostream \<Rightarrow> bool" where
  "good os = (\<not> bad os \<and> \<not> failbit os \<and> \<not> eofbit os)"

text \<open>\<^verbatim>\<open>(rdstate() & exceptions()) != 0\<close>: the condition under which \<^verbatim>\<open>clear\<close> throws.\<close>

definition raises :: "ostream \<Rightarrow> bool" where
  "raises os =
     (bad os \<and> exc_badbit os \<or> failbit os \<and> exc_failbit os \<or> eofbit os \<and> exc_eofbit os)"

text \<open>
  \<^verbatim>\<open>os.setstate(bits)\<close> for the two bits the statement can set: \<open>b\<close> for
  \<^verbatim>\<open>badbit\<close>, \<open>f\<close> for \<^verbatim>\<open>failbit\<close>. The bits are added to the state, and the call
  throws when a bit of the new state is in the exception mask.
\<close>

definition setstate :: "bool \<Rightarrow> bool \<Rightarrow> ostream \<Rightarrow> outcome \<times> ostream" where
  "setstate b f os =
     (let os' = os\<lparr>badbit := (badbit os \<or> b), failbit := (failbit os \<or> f)\<rparr>
      in (if raises os' then Threw else Returned, os'))"

text \<open>
  The character sequence a formatted inserter writes for the text \<open>s\<close>: when
  \<^verbatim>\<open>width()\<close> exceeds the length of \<open>s\<close>, fill characters make up the difference,
  after the text when the adjustment is \<^verbatim>\<open>left\<close>, before it otherwise.
\<close>

definition padded :: "string \<Rightarrow> ostream \<Rightarrow> string" where
  "padded s os =
     (let pad = replicate (nat (width os - int (length s))) (fill os)
      in if adjust_left os then s @ pad else pad @ s)"

text \<open>
  The destructor of the sentry, at the end of an output function that has not thrown:
  when \<^verbatim>\<open>unitbuf\<close> is set and the stream is good it calls \<^verbatim>\<open>pubsync\<close>, and sets
  \<^verbatim>\<open>badbit\<close> without throwing when that fails.
\<close>

definition sentry_done :: "addr \<Rightarrow> outcome \<times> 'a process_scheme \<Rightarrow> outcome \<times> 'a process_scheme" where
  "sentry_done a r =
     (case r of
        (Threw, p) \<Rightarrow> (Threw, p)
      | (Returned, p) \<Rightarrow>
          (if unitbuf (streams p a) \<and> good (streams p a) then
             (case rdbuf (streams p a) of
                None \<Rightarrow> (Returned, p)
              | Some b \<Rightarrow>
                  (case sync (bufs p b) of
                     (True, sb) \<Rightarrow> (Returned, set_buf b sb p)
                   | (False, sb) \<Rightarrow>
                       (Returned, set_stream a ((streams p a)\<lparr>badbit := True\<rparr>) (set_buf b sb p))))
           else (Returned, p)))"

text \<open>
  The body of \<^verbatim>\<open>operator<<(ostream&, const char*)\<close> once its sentry is in place: the
  padded sequence is inserted with \<^verbatim>\<open>sputn\<close>; when not all of it could be stored
  the function calls \<^verbatim>\<open>setstate(failbit)\<close>, which may throw; then \<^verbatim>\<open>width(0)\<close>.
\<close>

definition write_seq :: "string \<Rightarrow> addr \<Rightarrow> 'a process_scheme \<Rightarrow> outcome \<times> 'a process_scheme" where
  "write_seq s a p =
     (case rdbuf (streams p a) of
        None \<Rightarrow> (Returned, p)
      | Some b \<Rightarrow>
          (case sputn (padded s (streams p a)) (bufs p b) of
             (k, sb) \<Rightarrow>
               (if k = length (padded s (streams p a))
                then (Returned, set_stream a ((streams p a)\<lparr>width := 0\<rparr>) (set_buf b sb p))
                else (case setstate False True (streams p a) of
                        (Threw, os) \<Rightarrow> (Threw, set_stream a os (set_buf b sb p))
                      | (Returned, os) \<Rightarrow>
                          (Returned, set_stream a (os\<lparr>width := 0\<rparr>) (set_buf b sb p))))))"

text \<open>
  The body of \<^verbatim>\<open>ostream::put(c)\<close> once its sentry is in place: \<^verbatim>\<open>sputc\<close>, and
  \<^verbatim>\<open>setstate(badbit)\<close> when the character is refused.
\<close>

definition write_char :: "char \<Rightarrow> addr \<Rightarrow> 'a process_scheme \<Rightarrow> outcome \<times> 'a process_scheme" where
  "write_char c a p =
     (case rdbuf (streams p a) of
        None \<Rightarrow> (Returned, p)
      | Some b \<Rightarrow>
          (case sputc c (bufs p b) of
             (True, sb) \<Rightarrow> (Returned, set_buf b sb p)
           | (False, sb) \<Rightarrow>
               (case setstate True False (streams p a) of
                  (r, os) \<Rightarrow> (r, set_stream a os (set_buf b sb p)))))"

text \<open>
  The body of \<^verbatim>\<open>ostream::flush()\<close> once its sentry is in place: \<^verbatim>\<open>pubsync\<close>, and
  \<^verbatim>\<open>setstate(badbit)\<close> when it returns \<open>-1\<close>.
\<close>

definition pubsync :: "addr \<Rightarrow> 'a process_scheme \<Rightarrow> outcome \<times> 'a process_scheme" where
  "pubsync a p =
     (case rdbuf (streams p a) of
        None \<Rightarrow> (Returned, p)
      | Some b \<Rightarrow>
          (case sync (bufs p b) of
             (True, sb) \<Rightarrow> (Returned, set_buf b sb p)
           | (False, sb) \<Rightarrow>
               (case setstate True False (streams p a) of
                  (r, os) \<Rightarrow> (r, set_stream a os (set_buf b sb p)))))"

text \<open>
  \<^verbatim>\<open>ostream::flush()\<close> and the constructor of \<^verbatim>\<open>ostream::sentry\<close> call each other:
  \<^verbatim>\<open>flush\<close> does nothing when \<^verbatim>\<open>rdbuf()\<close> is null and constructs a sentry
  otherwise; the sentry of a good stream flushes the stream it is tied to, and is
  \<open>ok\<close> (the second component) when the stream is good after that. A stream that is
  not good is left alone unless the library calls \<^verbatim>\<open>setstate(failbit)\<close>. An
  exception of the tied stream's \<^verbatim>\<open>flush\<close> leaves the constructor.

  Ties can form a cycle, in which the calls never end. The first argument bounds the
  depth of the calls; \<open>None\<close> says that the bound was reached.
\<close>

fun flush :: "nat \<Rightarrow> library \<Rightarrow> addr \<Rightarrow> 'a process_scheme \<Rightarrow> (outcome \<times> 'a process_scheme) option"
  and sentry :: "nat \<Rightarrow> library \<Rightarrow> addr \<Rightarrow> 'a process_scheme \<Rightarrow> (outcome \<times> bool \<times> 'a process_scheme) option"
where
  "flush 0 lib a p = None"
| "flush (Suc n) lib a p =
     (case rdbuf (streams p a) of
        None \<Rightarrow> Some (Returned, p)
      | Some b \<Rightarrow>
          (case sentry n lib a p of
             None \<Rightarrow> None
           | Some (Threw, ok, p') \<Rightarrow> Some (Threw, p')
           | Some (Returned, ok, p') \<Rightarrow>
               (if ok then Some (sentry_done a (pubsync a p')) else Some (Returned, p'))))"
| "sentry 0 lib a p = None"
| "sentry (Suc n) lib a p =
     (case (case tie (streams p a) of
              None \<Rightarrow> Some (Returned, p)
            | Some t \<Rightarrow> if good (streams p a) then flush n lib t p else Some (Returned, p)) of
        None \<Rightarrow> None
      | Some (Threw, p') \<Rightarrow> Some (Threw, False, p')
      | Some (Returned, p') \<Rightarrow>
          (if good (streams p' a) then Some (Returned, True, p')
           else if sentry_setstate lib (streams p' a) then
             (case setstate False True (streams p' a) of
                (r, os) \<Rightarrow> Some (r, False, set_stream a os p'))
           else Some (Returned, False, p')))"

text \<open>
  \<^verbatim>\<open>os << s\<close> for a character string (a formatted output function): the sentry,
  the output when the sentry is ok, the sentry's destructor.
\<close>

definition put_str :: "nat \<Rightarrow> library \<Rightarrow> string \<Rightarrow> addr \<Rightarrow> 'a process_scheme \<Rightarrow> (outcome \<times> 'a process_scheme) option" where
  "put_str n lib s a p =
     (case sentry n lib a p of
        None \<Rightarrow> None
      | Some (Threw, ok, p') \<Rightarrow> Some (Threw, p')
      | Some (Returned, ok, p') \<Rightarrow>
          (if ok then Some (sentry_done a (write_seq s a p')) else Some (Returned, p')))"

text \<open>\<^verbatim>\<open>os.put(c)\<close> (an unformatted output function), in the same three steps.\<close>

definition put :: "nat \<Rightarrow> library \<Rightarrow> char \<Rightarrow> addr \<Rightarrow> 'a process_scheme \<Rightarrow> (outcome \<times> 'a process_scheme) option" where
  "put n lib c a p =
     (case sentry n lib a p of
        None \<Rightarrow> None
      | Some (Threw, ok, p') \<Rightarrow> Some (Threw, p')
      | Some (Returned, ok, p') \<Rightarrow>
          (if ok then Some (sentry_done a (write_char c a p')) else Some (Returned, p')))"

text \<open>
  Sequencing: the second call is made in the state the first one returned in; when
  the first one throws, the statement is left and the second call is not made.
\<close>

definition and_then :: "(outcome \<times> 'a process_scheme) option \<Rightarrow> ('a process_scheme \<Rightarrow> (outcome \<times> 'a process_scheme) option) \<Rightarrow> (outcome \<times> 'a process_scheme) option" where
  "and_then r f =
     (case r of
        None \<Rightarrow> None
      | Some (Threw, p) \<Rightarrow> Some (Threw, p)
      | Some (Returned, p) \<Rightarrow> f p)"

text \<open>\<^verbatim>\<open>os << std::endl\<close>: \<^verbatim>\<open>os.put(os.widen('\n'))\<close>, then \<^verbatim>\<open>os.flush()\<close>.\<close>

definition endl :: "nat \<Rightarrow> library \<Rightarrow> addr \<Rightarrow> 'a process_scheme \<Rightarrow> (outcome \<times> 'a process_scheme) option" where
  "endl n lib a p = and_then (put n lib (widen (streams p a) (CHR 0x0A)) a p) (flush n lib a)"

subsection \<open>\<^verbatim>\<open>MarketMaker::start\<close> and \<^verbatim>\<open>MarketMaker::stop\<close>\<close>

text \<open>The address of \<^verbatim>\<open>std::cout\<close>.\<close>

definition cout :: addr where
  "cout = 0"

text \<open>
  A \<^verbatim>\<open>void\<close> function without parameters acts on the state alone: the state before the
  call is its argument, and its result is how it was left together with the state
  after it. The call depth bound and the library are the parameters of the model.
\<close>

definition start :: "nat \<Rightarrow> library \<Rightarrow> 'a process_scheme \<Rightarrow> (outcome \<times> 'a process_scheme) option" where
  "start n lib p = and_then (put_str n lib ''Market maker starting...'' cout p) (endl n lib cout)"

definition stop :: "nat \<Rightarrow> library \<Rightarrow> 'a process_scheme \<Rightarrow> (outcome \<times> 'a process_scheme) option" where
  "stop n lib p = and_then (put_str n lib ''Market maker stopping...'' cout p) (endl n lib cout)"

text \<open>What has reached standard output: the device behind the buffer of \<^verbatim>\<open>std::cout\<close>.\<close>

definition stdout_text :: "'a process_scheme \<Rightarrow> string" where
  "stdout_text p = (case rdbuf (streams p cout) of None \<Rightarrow> [] | Some b \<Rightarrow> device (bufs p b))"

subsection \<open>Example states\<close>

text \<open>
  A program as it is right after start-up: every stream good, untied, with default
  formatting and a buffer of its own; every device empty and accepting characters.
\<close>

definition console :: streambuf where
  "console = \<lparr>device = [], buffer = [], capacity = 8, writable = True\<rparr>"

definition fresh_stream :: ostream where
  "fresh_stream =
     \<lparr>rdbuf = Some 0, badbit = False, failbit = False, eofbit = False,
      exc_badbit = False, exc_failbit = False, exc_eofbit = False,
      width = 0, fill = CHR '' '', adjust_left = False, unitbuf = False, tie = None,
      widen = id\<rparr>"

definition fresh :: process where
  "fresh = \<lparr>streams = (\<lambda>a. fresh_stream\<lparr>rdbuf := Some a\<rparr>), bufs = (\<lambda>b. console)\<rparr>"

text \<open>The same program after an earlier output error has set \<^verbatim>\<open>badbit\<close> in \<^verbatim>\<open>std::cout\<close>.\<close>

definition failed :: process where
  "failed = set_stream cout (fresh_stream\<lparr>badbit := True\<rparr>) fresh"

text \<open>The same program after \<^verbatim>\<open>std::cout << std::setw(30) << std::setfill('*')\<close>.\<close>

definition wide :: process where
  "wide = set_stream cout (fresh_stream\<lparr>width := 30, fill := CHR ''*''\<rparr>) fresh"

text \<open>The same program with standard output closed, behind a put area of 100 characters.\<close>

definition closed :: process where
  "closed = set_buf 0 (console\<lparr>capacity := 100, writable := False\<rparr>) fresh"

text \<open>The same, with \<^verbatim>\<open>std::cout.exceptions(std::ios_base::badbit)\<close> in force.\<close>

definition throwing :: process where
  "throwing = set_stream cout (fresh_stream\<lparr>exc_badbit := True\<rparr>) closed"

text \<open>
  The program after \<^verbatim>\<open>std::cout.tie(&log)\<close>, where \<^verbatim>\<open>log\<close> is the stream at
  address 1 and has the text \<open>log\<close> in its put area.
\<close>

definition tied :: process where
  "tied = set_buf 1 (console\<lparr>buffer := ''log''\<rparr>) (set_stream cout (fresh_stream\<lparr>tie := Some 1\<rparr>) fresh)"

text \<open>The program after \<^verbatim>\<open>std::cout\<close> was imbued with a locale that widens every character to a blank.\<close>

definition imbued :: process where
  "imbued = set_stream cout (fresh_stream\<lparr>widen := (\<lambda>c. CHR '' '')\<rparr>) fresh"

text \<open>A library whose sentry never calls \<^verbatim>\<open>setstate\<close>, and one that does for a bad stream.\<close>

definition quiet :: library where
  "quiet = \<lparr>sentry_setstate = (\<lambda>os. False)\<rparr>"

definition strict :: library where
  "strict = \<lparr>sentry_setstate = bad\<rparr>"

section \<open>Properties\<close>

subsection \<open>Writable stream buffers\<close>

text \<open>
  In front of a device that accepts characters nothing is refused and nothing is lost:
  whatever the size of the put area, device and put area together grow by the
  characters given, and the other fields stay.
\<close>

lemma sputc_writable:
  assumes "writable sb"
  shows "\<exists>d bf. sputc c sb = (True, sb\<lparr>device := d, buffer := bf\<rparr>)
           \<and> d @ bf = device sb @ buffer sb @ [c]"
proof (cases "length (buffer sb) < capacity sb")
  case True
  then show ?thesis
    by (intro exI [of _ "device sb"] exI [of _ "buffer sb @ [c]"]) (simp add: sputc_def)
next
  case False
  with assms show ?thesis
    by (intro exI [of _ "device sb @ buffer sb @ [c]"] exI [of _ "[]"]) (simp add: sputc_def)
qed

lemma sputn_writable:
  "writable sb \<Longrightarrow>
     \<exists>d bf. sputn s sb = (length s, sb\<lparr>device := d, buffer := bf\<rparr>)
       \<and> d @ bf = device sb @ buffer sb @ s"
proof (induction s arbitrary: sb)
  case Nil
  show ?case
    by (intro exI [of _ "device sb"] exI [of _ "buffer sb"]) simp
next
  case (Cons c cs)
  from sputc_writable [OF Cons.prems, of c] obtain d bf
    where c: "sputc c sb = (True, sb\<lparr>device := d, buffer := bf\<rparr>)"
      and e: "d @ bf = device sb @ buffer sb @ [c]"
    by blast
  have "writable (sb\<lparr>device := d, buffer := bf\<rparr>)"
    using Cons.prems by simp
  from Cons.IH [OF this] obtain d' bf'
    where n: "sputn cs (sb\<lparr>device := d, buffer := bf\<rparr>)
                = (length cs, sb\<lparr>device := d', buffer := bf'\<rparr>)"
      and e': "d' @ bf' = d @ bf @ cs"
    by auto
  show ?case
    using c n e e' by (intro exI [of _ d'] exI [of _ bf']) simp
qed

lemma sync_writable:
  "writable sb \<Longrightarrow> sync sb = (True, sb\<lparr>device := device sb @ buffer sb, buffer := []\<rparr>)"
  by (simp add: sync_def)

subsection \<open>Output on a good, untied stream in front of a writable buffer\<close>

lemma sentry_done_writable:
  assumes "rdbuf (streams p a) = Some b" and "writable (bufs p b)"
  shows "\<exists>d bf. sentry_done a (Returned, p)
             = (Returned, set_buf b ((bufs p b)\<lparr>device := d, buffer := bf\<rparr>) p)
           \<and> d @ bf = device (bufs p b) @ buffer (bufs p b)"
proof (cases "unitbuf (streams p a) \<and> good (streams p a)")
  case True
  with assms show ?thesis
    by (intro exI [of _ "device (bufs p b) @ buffer (bufs p b)"] exI [of _ "[]"])
      (simp add: sentry_done_def sync_writable)
next
  case False
  then have "sentry_done a (Returned, p) = (Returned, p)"
    by (auto simp add: sentry_done_def)
  then show ?thesis
    by (intro exI [of _ "device (bufs p b)"] exI [of _ "buffer (bufs p b)"])
      (simp add: set_buf_def)
qed

lemma put_str_ok:
  assumes g: "good (streams p a)" and r: "rdbuf (streams p a) = Some b"
    and t: "tie (streams p a) = None" and w: "writable (bufs p b)"
  shows "\<exists>d bf. put_str (Suc n) lib s a p =
            Some (Returned, set_stream a ((streams p a)\<lparr>width := 0\<rparr>)
                              (set_buf b ((bufs p b)\<lparr>device := d, buffer := bf\<rparr>) p))
           \<and> d @ bf = device (bufs p b) @ buffer (bufs p b) @ padded s (streams p a)"
proof -
  let ?os = "streams p a" and ?sb = "bufs p b"
  from sputn_writable [OF w, of "padded s ?os"] obtain d bf
    where n: "sputn (padded s ?os) ?sb
                = (length (padded s ?os), ?sb\<lparr>device := d, buffer := bf\<rparr>)"
      and e: "d @ bf = device ?sb @ buffer ?sb @ padded s ?os"
    by blast
  let ?p1 = "set_stream a (?os\<lparr>width := 0\<rparr>) (set_buf b (?sb\<lparr>device := d, buffer := bf\<rparr>) p)"
  have ins: "write_seq s a p = (Returned, ?p1)"
    using r n by (simp add: write_seq_def)
  have r1: "rdbuf (streams ?p1 a) = Some b" and w1: "writable (bufs ?p1 b)"
    using r w by (simp_all add: set_stream_def set_buf_def)
  from sentry_done_writable [OF r1 w1] obtain d' bf'
    where sd: "sentry_done a (Returned, ?p1) =
        (Returned, set_buf b ((bufs ?p1 b)\<lparr>device := d', buffer := bf'\<rparr>) ?p1)"
      and e': "d' @ bf' = device (bufs ?p1 b) @ buffer (bufs ?p1 b)"
    by blast
  have "put_str (Suc n) lib s a p = Some (sentry_done a (Returned, ?p1))"
    using g t ins by (simp add: put_str_def)
  also have "\<dots> = Some (Returned, set_stream a (?os\<lparr>width := 0\<rparr>)
                              (set_buf b (?sb\<lparr>device := d', buffer := bf'\<rparr>) p))"
    unfolding sd by (simp add: set_stream_def set_buf_def)
  finally have "put_str (Suc n) lib s a p =
      Some (Returned, set_stream a (?os\<lparr>width := 0\<rparr>)
                        (set_buf b (?sb\<lparr>device := d', buffer := bf'\<rparr>) p))" .
  moreover have "d' @ bf' = device ?sb @ buffer ?sb @ padded s ?os"
    using e e' by (simp add: set_stream_def set_buf_def)
  ultimately show ?thesis by blast
qed

lemma put_ok:
  assumes g: "good (streams p a)" and r: "rdbuf (streams p a) = Some b"
    and t: "tie (streams p a) = None" and w: "writable (bufs p b)"
  shows "\<exists>d bf. put (Suc n) lib c a p =
            Some (Returned, set_buf b ((bufs p b)\<lparr>device := d, buffer := bf\<rparr>) p)
           \<and> d @ bf = device (bufs p b) @ buffer (bufs p b) @ [c]"
proof -
  let ?sb = "bufs p b"
  from sputc_writable [OF w, of c] obtain d bf
    where n: "sputc c ?sb = (True, ?sb\<lparr>device := d, buffer := bf\<rparr>)"
      and e: "d @ bf = device ?sb @ buffer ?sb @ [c]"
    by blast
  let ?p1 = "set_buf b (?sb\<lparr>device := d, buffer := bf\<rparr>) p"
  have ins: "write_char c a p = (Returned, ?p1)"
    using r n by (simp add: write_char_def)
  have r1: "rdbuf (streams ?p1 a) = Some b" and w1: "writable (bufs ?p1 b)"
    using r w by (simp_all add: set_buf_def)
  from sentry_done_writable [OF r1 w1] obtain d' bf'
    where sd: "sentry_done a (Returned, ?p1) =
        (Returned, set_buf b ((bufs ?p1 b)\<lparr>device := d', buffer := bf'\<rparr>) ?p1)"
      and e': "d' @ bf' = device (bufs ?p1 b) @ buffer (bufs ?p1 b)"
    by blast
  have "put (Suc n) lib c a p = Some (sentry_done a (Returned, ?p1))"
    using g t ins by (simp add: put_def)
  also have "\<dots> = Some (Returned, set_buf b (?sb\<lparr>device := d', buffer := bf'\<rparr>) p)"
    unfolding sd by (simp add: set_buf_def)
  finally have "put (Suc n) lib c a p =
      Some (Returned, set_buf b (?sb\<lparr>device := d', buffer := bf'\<rparr>) p)" .
  moreover have "d' @ bf' = device ?sb @ buffer ?sb @ [c]"
    using e e' by (simp add: set_buf_def)
  ultimately show ?thesis by blast
qed

lemma flush_ok:
  assumes g: "good (streams p a)" and r: "rdbuf (streams p a) = Some b"
    and t: "tie (streams p a) = None" and w: "writable (bufs p b)"
  shows "flush (Suc (Suc n)) lib a p =
     Some (Returned,
       set_buf b ((bufs p b)\<lparr>device := device (bufs p b) @ buffer (bufs p b), buffer := []\<rparr>) p)"
proof -
  let ?sb = "bufs p b"
  let ?p1 = "set_buf b (?sb\<lparr>device := device ?sb @ buffer ?sb, buffer := []\<rparr>) p"
  have ps: "pubsync a p = (Returned, ?p1)"
    using r w by (simp add: pubsync_def sync_writable)
  have r1: "rdbuf (streams ?p1 a) = Some b"
    using r by (simp add: set_buf_def)
  have e1: "buffer (bufs ?p1 b) = []"
    by (simp add: set_buf_def)
  have sd: "sentry_done a (Returned, ?p1) = (Returned, ?p1)"
  proof (cases "unitbuf (streams ?p1 a) \<and> good (streams ?p1 a)")
    case True
    have "sync (bufs ?p1 b) = (True, bufs ?p1 b)"
      using e1 by (simp add: sync_def)
    moreover have "set_buf b (bufs ?p1 b) ?p1 = ?p1"
      by (simp add: set_buf_def)
    ultimately show ?thesis
      using True r1 by (simp add: sentry_done_def)
  next
    case False
    then show ?thesis by (auto simp add: sentry_done_def)
  qed
  have "flush (Suc (Suc n)) lib a p = Some (sentry_done a (Returned, ?p1))"
    using g r t ps by simp
  then show ?thesis by (simp only: sd)
qed

lemma endl_ok:
  assumes g: "good (streams p a)" and r: "rdbuf (streams p a) = Some b"
    and t: "tie (streams p a) = None" and w: "writable (bufs p b)"
    and nl: "widen (streams p a) (CHR 0x0A) = CHR 0x0A"
  shows "endl (Suc (Suc n)) lib a p =
     Some (Returned,
       set_buf b ((bufs p b)\<lparr>device := device (bufs p b) @ buffer (bufs p b) @ [CHR 0x0A],
                               buffer := []\<rparr>) p)"
proof -
  let ?sb = "bufs p b"
  from put_ok [OF g r t w, of "Suc n" lib "CHR 0x0A"] obtain d bf
    where pt: "put (Suc (Suc n)) lib (CHR 0x0A) a p =
                 Some (Returned, set_buf b (?sb\<lparr>device := d, buffer := bf\<rparr>) p)"
      and e: "d @ bf = device ?sb @ buffer ?sb @ [CHR 0x0A]"
    by blast
  let ?p1 = "set_buf b (?sb\<lparr>device := d, buffer := bf\<rparr>) p"
  have g1: "good (streams ?p1 a)" and r1: "rdbuf (streams ?p1 a) = Some b"
    and t1: "tie (streams ?p1 a) = None" and w1: "writable (bufs ?p1 b)"
    using g r t w by (simp_all add: set_buf_def)
  have "endl (Suc (Suc n)) lib a p = flush (Suc (Suc n)) lib a ?p1"
    by (simp add: endl_def nl pt and_then_def)
  also have "\<dots> = Some (Returned,
      set_buf b ((bufs ?p1 b)\<lparr>device := device (bufs ?p1 b) @ buffer (bufs ?p1 b),
                                buffer := []\<rparr>) ?p1)"
    by (rule flush_ok [OF g1 r1 t1 w1])
  also have "\<dots> = Some (Returned,
      set_buf b (?sb\<lparr>device := device ?sb @ buffer ?sb @ [CHR 0x0A], buffer := []\<rparr>) p)"
    using e by (simp add: set_buf_def)
  finally show ?thesis .
qed

lemma put_str_endl_ok:
  assumes g: "good (streams p a)" and r: "rdbuf (streams p a) = Some b"
    and t: "tie (streams p a) = None" and w: "writable (bufs p b)"
    and nl: "widen (streams p a) (CHR 0x0A) = CHR 0x0A"
  shows "and_then (put_str (Suc (Suc n)) lib s a p) (endl (Suc (Suc n)) lib a) =
     Some (Returned,
       set_stream a ((streams p a)\<lparr>width := 0\<rparr>)
         (set_buf b ((bufs p b)\<lparr>device := device (bufs p b) @ buffer (bufs p b)
                                         @ padded s (streams p a) @ [CHR 0x0A],
                                 buffer := []\<rparr>) p))"
proof -
  let ?os = "streams p a" and ?sb = "bufs p b"
  from put_str_ok [OF g r t w, of "Suc n" lib s] obtain d bf
    where ps: "put_str (Suc (Suc n)) lib s a p =
                 Some (Returned, set_stream a (?os\<lparr>width := 0\<rparr>)
                                   (set_buf b (?sb\<lparr>device := d, buffer := bf\<rparr>) p))"
      and e: "d @ bf = device ?sb @ buffer ?sb @ padded s ?os"
    by blast
  let ?p1 = "set_stream a (?os\<lparr>width := 0\<rparr>) (set_buf b (?sb\<lparr>device := d, buffer := bf\<rparr>) p)"
  have g1: "good (streams ?p1 a)" and r1: "rdbuf (streams ?p1 a) = Some b"
    and t1: "tie (streams ?p1 a) = None" and w1: "writable (bufs ?p1 b)"
    and nl1: "widen (streams ?p1 a) (CHR 0x0A) = CHR 0x0A"
    using g r t w nl by (simp_all add: set_stream_def set_buf_def good_def bad_def)
  have "and_then (put_str (Suc (Suc n)) lib s a p) (endl (Suc (Suc n)) lib a) =
          endl (Suc (Suc n)) lib a ?p1"
    by (simp add: ps and_then_def)
  also have "\<dots> = Some (Returned,
      set_buf b ((bufs ?p1 b)\<lparr>device := device (bufs ?p1 b) @ buffer (bufs ?p1 b) @ [CHR 0x0A],
                                buffer := []\<rparr>) ?p1)"
    by (rule endl_ok [OF g1 r1 t1 w1 nl1])
  also have "\<dots> = Some (Returned, set_stream a (?os\<lparr>width := 0\<rparr>)
         (set_buf b (?sb\<lparr>device := device ?sb @ buffer ?sb @ padded s ?os @ [CHR 0x0A],
                                 buffer := []\<rparr>) p))"
  proof -
    have e2: "d @ bf @ [CHR 0x0A] = device ?sb @ buffer ?sb @ padded s ?os @ [CHR 0x0A]"
      using e by (metis append_assoc)
    show ?thesis by (simp add: set_stream_def set_buf_def e2)
  qed
  finally show ?thesis .
qed

lemma padded_fits: "width os \<le> int (length s) \<Longrightarrow> padded s os = s"
  by (simp add: padded_def)

subsection \<open>Output on a stream that is not good\<close>

text \<open>
  On a stream that is not good the sentry is not ok, and none of the three output
  functions of the statement touches the state (with a library whose sentry does not
  call \<^verbatim>\<open>setstate\<close> for that stream).
\<close>

lemma sentry_not_good:
  "\<not> good (streams p a) \<Longrightarrow> \<not> sentry_setstate lib (streams p a) \<Longrightarrow>
     sentry (Suc n) lib a p = Some (Returned, False, p)"
  by (cases "tie (streams p a)") simp_all

lemma put_str_not_good:
  "\<not> good (streams p a) \<Longrightarrow> \<not> sentry_setstate lib (streams p a) \<Longrightarrow>
     put_str (Suc n) lib s a p = Some (Returned, p)"
  by (simp add: put_str_def sentry_not_good del: sentry.simps)

lemma put_not_good:
  "\<not> good (streams p a) \<Longrightarrow> \<not> sentry_setstate lib (streams p a) \<Longrightarrow>
     put (Suc n) lib c a p = Some (Returned, p)"
  by (simp add: put_def sentry_not_good del: sentry.simps)

lemma flush_not_good:
  "\<not> good (streams p a) \<Longrightarrow> \<not> sentry_setstate lib (streams p a) \<Longrightarrow>
     flush (Suc (Suc n)) lib a p = Some (Returned, p)"
  by (simp add: sentry_not_good split: option.split del: sentry.simps)

lemma start_not_good:
  assumes "\<not> good (streams p cout)" and "\<not> sentry_setstate lib (streams p cout)"
  shows "start (Suc (Suc n)) lib p = Some (Returned, p)"
  using assms
  by (simp add: start_def endl_def and_then_def put_str_not_good put_not_good flush_not_good
      del: flush.simps)

lemma stop_not_good:
  assumes "\<not> good (streams p cout)" and "\<not> sentry_setstate lib (streams p cout)"
  shows "stop (Suc (Suc n)) lib p = Some (Returned, p)"
  using assms
  by (simp add: stop_def endl_def and_then_def put_str_not_good put_not_good flush_not_good
      del: flush.simps)


subsection \<open>Ties\<close>

text \<open>
  A good stream that is tied to itself is never flushed to the end, whatever the
  bound: sentry and \<^verbatim>\<open>flush\<close> keep calling each other.
\<close>

lemma flush_self_tied:
  assumes "tie (streams p a) = Some a" and "good (streams p a)"
  shows "flush n lib a p = None \<and> sentry n lib a p = None"
  using assms
proof (induction n)
  case 0
  show ?case by simp
next
  case (Suc n)
  then have "rdbuf (streams p a) \<noteq> None"
    by (simp add: good_def bad_def)
  with Suc show ?case by auto
qed

subsection \<open>Calls in states other than the usual one\<close>

text \<open>With \<^verbatim>\<open>badbit\<close> in the exception mask, the failing flush leaves the call by an exception.\<close>

lemma start_throwing:
  "fst (the (start 2 quiet throwing)) = Threw \<and> stdout_text (snd (the (start 2 quiet throwing))) = []"
  by code_simp

subsection \<open>The behaviour of the two functions\<close>

text \<open>
  Claim C10, as stated: every call of \<^verbatim>\<open>MarketMaker::start\<close> writes exactly the line
  \<open>Market maker starting...\<close> to standard output and every call of
  \<^verbatim>\<open>MarketMaker::stop\<close> exactly the line \<open>Market maker stopping...\<close>.

  This fails. In the state \<open>failed\<close>, where \<^verbatim>\<open>std::cout\<close> has \<^verbatim>\<open>badbit\<close> set,
  \<^verbatim>\<open>start\<close> and \<^verbatim>\<open>stop\<close> return with the state as it was: nothing is written. The
  code reaches such a state by itself: in the state \<open>closed\<close>, where standard output
  does not accept characters, \<^verbatim>\<open>start\<close> returns with nothing on standard output
  and \<^verbatim>\<open>badbit\<close> set, and the \<^verbatim>\<open>stop\<close> that follows changes nothing. In the state
  \<open>wide\<close> the text is written behind six fill characters; in the state \<open>imbued\<close> the
  text is written and no newline; and in the state \<open>tied\<close> the call also changes a
  stream buffer that is not the one of \<^verbatim>\<open>std::cout\<close>.
\<close>

theorem start_stop_every_call_counterexample:
  "start 2 quiet failed = Some (Returned, failed)
   \<and> stop 2 quiet failed = Some (Returned, failed)
   \<and> fst (the (start 2 quiet closed)) = Returned
   \<and> stdout_text (snd (the (start 2 quiet closed))) = []
   \<and> stop 2 quiet (snd (the (start 2 quiet closed))) = Some (Returned, snd (the (start 2 quiet closed)))
   \<and> stdout_text (snd (the (start 2 quiet wide))) = ''******Market maker starting...'' @ [CHR 0x0A]
   \<and> stdout_text (snd (the (start 2 quiet imbued))) = ''Market maker starting... ''
   \<and> device (bufs tied 1) = []
   \<and> device (bufs (snd (the (start 4 quiet tied))) 1) = ''log''"
proof -
  have ng: "\<not> good (streams failed cout)"
    by (simp add: failed_def set_stream_def good_def bad_def)
  have q: "\<not> sentry_setstate quiet os" for os
    by (simp add: quiet_def)
  have a: "start 2 quiet failed = Some (Returned, failed)"
    using start_not_good [OF ng q, of 0] by (simp add: numeral_2_eq_2)
  have b: "stop 2 quiet failed = Some (Returned, failed)"
    using stop_not_good [OF ng q, of 0] by (simp add: numeral_2_eq_2)
  have c: "fst (the (start 2 quiet closed)) = Returned"
    by code_simp
  have d: "stdout_text (snd (the (start 2 quiet closed))) = []"
    by code_simp
  have "badbit (streams (snd (the (start 2 quiet closed))) cout)"
    by code_simp
  then have "\<not> good (streams (snd (the (start 2 quiet closed))) cout)"
    by (simp add: good_def bad_def)
  from stop_not_good [OF this q, of 0]
  have e: "stop 2 quiet (snd (the (start 2 quiet closed)))
             = Some (Returned, snd (the (start 2 quiet closed)))"
    by (simp add: numeral_2_eq_2)
  have f: "stdout_text (snd (the (start 2 quiet wide)))
             = ''******Market maker starting...'' @ [CHR 0x0A]"
    by code_simp
  have g: "stdout_text (snd (the (start 2 quiet imbued))) = ''Market maker starting... ''"
    by code_simp
  have h: "device (bufs tied 1) = []"
    by code_simp
  have i: "device (bufs (snd (the (start 4 quiet tied))) 1) = ''log''"
    by code_simp
  from a b c d e f g h i show ?thesis by simp
qed

text \<open>
  Claim C10, amended. Every call of \<^verbatim>\<open>MarketMaker::start\<close> that is made while
  \<^verbatim>\<open>std::cout\<close> is good (no error bit set, a stream buffer attached), is tied to no
  stream, has a field width of at most 24 (the length of the text), widens the newline
  to itself and stands in front of a device that accepts characters, returns without
  an exception and writes exactly the line \<open>Market maker starting...\<close> to standard
  output: the device has received what it had, what was waiting in the put area, the
  text and a newline, and nothing is left in the put area. The same holds of
  \<^verbatim>\<open>MarketMaker::stop\<close> and the line \<open>Market maker stopping...\<close>. Neither function
  takes an argument or returns a value, and the state after the call is the state
  before it with that output made and the field width of \<^verbatim>\<open>std::cout\<close> reset to 0:
  every other stream, every other buffer and the rest of the program state are as
  they were, whatever the library does on the paths it is free on. This is all
  that the two function bodies of \<^verbatim>\<open>market_maker.cpp\<close> do.
\<close>

theorem start_stop_write_line:
  assumes "good (streams p cout)"
    and "rdbuf (streams p cout) = Some b"
    and "tie (streams p cout) = None"
    and "writable (bufs p b)"
    and "width (streams p cout) \<le> 24"
    and "widen (streams p cout) (CHR 0x0A) = CHR 0x0A"
    and "2 \<le> n"
  shows "start n lib p =
           Some (Returned,
             set_stream cout ((streams p cout)\<lparr>width := 0\<rparr>)
               (set_buf b ((bufs p b)\<lparr>device := device (bufs p b) @ buffer (bufs p b)
                                              @ ''Market maker starting...'' @ [CHR 0x0A],
                                       buffer := []\<rparr>) p))
       \<and> stop n lib p =
           Some (Returned,
             set_stream cout ((streams p cout)\<lparr>width := 0\<rparr>)
               (set_buf b ((bufs p b)\<lparr>device := device (bufs p b) @ buffer (bufs p b)
                                              @ ''Market maker stopping...'' @ [CHR 0x0A],
                                       buffer := []\<rparr>) p))"
proof -
  from \<open>2 \<le> n\<close> obtain m where n: "n = Suc (Suc m)"
    by (metis add_2_eq_Suc le_Suc_ex)
  have f1: "padded ''Market maker starting...'' (streams p cout) = ''Market maker starting...''"
    and f2: "padded ''Market maker stopping...'' (streams p cout) = ''Market maker stopping...''"
    using assms(5) by (simp_all add: padded_fits)
  show ?thesis
    unfolding start_def stop_def n
    using put_str_endl_ok [OF assms(1-4,6), of m lib "''Market maker starting...''"]
      put_str_endl_ok [OF assms(1-4,6), of m lib "''Market maker stopping...''"]
    by (simp only: f1 f2 append_assoc simp_thms)
qed

text \<open>
  The program right after start-up meets every hypothesis, and there the two calls put
  their lines on standard output.
\<close>

theorem start_stop_write_line_witness:
  "good (streams fresh cout)
   \<and> rdbuf (streams fresh cout) = Some 0
   \<and> tie (streams fresh cout) = None
   \<and> writable (bufs fresh 0)
   \<and> width (streams fresh cout) \<le> 24
   \<and> widen (streams fresh cout) (CHR 0x0A) = CHR 0x0A
   \<and> (2::nat) \<le> 2
   \<and> stdout_text (snd (the (start 2 strict fresh))) = ''Market maker starting...'' @ [CHR 0x0A]
   \<and> stdout_text (snd (the (stop 2 strict fresh))) = ''Market maker stopping...'' @ [CHR 0x0A]"
proof -
  have h1: "good (streams fresh cout)"
    and h2: "rdbuf (streams fresh cout) = Some 0"
    and h3: "tie (streams fresh cout) = None"
    and h4: "writable (bufs fresh 0)"
    and h5: "width (streams fresh cout) \<le> 24"
    and h6: "widen (streams fresh cout) (CHR 0x0A) = CHR 0x0A"
    by (simp_all add: fresh_def fresh_stream_def console_def cout_def good_def bad_def)
  have h7: "(2::nat) \<le> 2" by simp
  from start_stop_write_line [OF h1 h2 h3 h4 h5 h6 h7, of strict]
  have "stdout_text (snd (the (start 2 strict fresh))) = ''Market maker starting...'' @ [CHR 0x0A]"
    and "stdout_text (snd (the (stop 2 strict fresh))) = ''Market maker stopping...'' @ [CHR 0x0A]"
    by (simp_all add: stdout_text_def set_stream_def set_buf_def fresh_def fresh_stream_def
        console_def cout_def)
  with h1 h2 h3 h4 h5 h6 h7 show ?thesis by simp
qed

end
